theory Spec2Isabelle
  imports Main
begin

section \<open>Data model of the chat (TradebergChat.tsx)\<close>

text \<open>
  Strings are lists of 8-bit characters, read as the code units of a JavaScript string
  whose code points are all below 256.

  \<^verbatim>\<open>type Role = "user" | "assistant";\<close>
\<close>

datatype Role = User | Assistant

text \<open>
  \<^verbatim>\<open>
  type Attachment =
      | { type: "image"; data: string }
      | { type: "url"; data: string }
      | { type: "file"; data: string };
  \<close>
  A tagged union whose three members differ in the tag only: a record of the tag and
  the payload. The tag field \<open>type\<close> is written \<open>kind\<close>.
\<close>

datatype AttachmentType = TypeImage | TypeUrl | TypeFile

record Attachment =
  kind :: AttachmentType
  data :: string

text \<open>
  \<^verbatim>\<open>type ChatMessage = { role: Role; content: string; attachments?: Attachment[] };\<close>
  The optional field is \<open>None\<close> when the message literal leaves it out. It is
  written \<open>msg_attachments\<close>: the name \<open>attachments\<close> is the pending list of
  the chat state below.
\<close>

record ChatMessage =
  role :: Role
  content :: string
  msg_attachments :: "Attachment list option"

section \<open>Removing one pending attachment\<close>

text \<open>
  \<^verbatim>\<open>Array.prototype.filter\<close> with a predicate of the element and its index:
  the kept elements, in their order. The index counts from the \<open>n\<close> given.
\<close>

fun filter_indexed :: "('a \<Rightarrow> nat \<Rightarrow> bool) \<Rightarrow> nat \<Rightarrow> 'a list \<Rightarrow> 'a list" where
  "filter_indexed p n [] = []"
| "filter_indexed p n (x # xs) =
     (if p x n then x # filter_indexed p (Suc n) xs else filter_indexed p (Suc n) xs)"

text \<open>
  \<^verbatim>\<open>
  const removeAtIndex = () => {
      setAttachments((prev) => prev.filter((_, i) => i !== index));
  };
  \<close>
  The updater applied to the pending list \<open>prev\<close>, for the thumbnail at \<open>index\<close>.
\<close>

definition removeAtIndex :: "nat \<Rightarrow> Attachment list \<Rightarrow> Attachment list" where
  "removeAtIndex index prev = filter_indexed (\<lambda>_ i. i \<noteq> index) 0 prev"

section \<open>State of the chat\<close>

text \<open>
  JavaScript's \<^verbatim>\<open>String.prototype.trim\<close> removes white space and line
  terminators from both ends. Among the code units below 256 these are TAB, LF, VT, FF, CR,
  SPACE and NBSP.
\<close>

definition isWhiteSpace :: "char \<Rightarrow> bool" where
  "isWhiteSpace c = (of_char c \<in> {9, 10, 11, 12, 13, 32, 160 :: nat})"

definition trim :: "string \<Rightarrow> string" where
  "trim s = rev (dropWhile isWhiteSpace (rev (dropWhile isWhiteSpace s)))"

text \<open>\<^verbatim>\<open>text.slice(a, b)\<close> for \<open>0 \<le> a \<le> b\<close>: the code units from \<open>a\<close> up to \<open>b\<close>, as far as the string goes.\<close>

definition slice :: "string \<Rightarrow> nat \<Rightarrow> nat \<Rightarrow> string" where
  "slice s a b = take (b - a) (drop a s)"

datatype ConsoleLevel = Log | Warn | Error

text \<open>
  The \<^verbatim>\<open>useState\<close> variables of \<^verbatim>\<open>ChatInterface\<close> (from \<open>chatId\<close> to
  \<open>forceCompleteTyping\<close>) and of \<^verbatim>\<open>PromptTray\<close> (\<open>prompt\<close>,
  \<open>isCapturing\<close>), and the two pieces of the environment the handlers act on: the
  \<^verbatim>\<open>AbortController\<close> objects created so far (\<open>controllers ! a\<close> is
  \<^verbatim>\<open>signal.aborted\<close> of the controller at address \<open>a\<close>; the state variable
  \<open>abortController\<close> holds an address or \<^verbatim>\<open>null\<close>), and the lines written to the
  console.
\<close>

record World =
  chatId :: "string option"
  messages :: "ChatMessage list"
  isLoading :: bool
  abortController :: "nat option"
  attachments :: "Attachment list"
  isWebpageModalOpen :: bool
  previewImage :: "string option"
  isEditingPrompt :: bool
  editDraft :: string
  isAssistantTyping :: bool
  forceCompleteTyping :: bool
  prompt :: string
  isCapturing :: bool
  controllers :: "bool list"
  console :: "(ConsoleLevel \<times> string) list"

text \<open>The state a freshly mounted chat starts from (\<^verbatim>\<open>initialChatId ?? null\<close>).\<close>

definition initial :: "string option \<Rightarrow> World" where
  "initial initialChatId =
     \<lparr>chatId = initialChatId, messages = [], isLoading = False, abortController = None,
      attachments = [], isWebpageModalOpen = False, previewImage = None,
      isEditingPrompt = False, editDraft = [], isAssistantTyping = False,
      forceCompleteTyping = False, prompt = [], isCapturing = False,
      controllers = [], console = []\<rparr>"

section \<open>The attachment sink and its callers\<close>

text \<open>
  \<^verbatim>\<open>
  const handleSetAttachment = (att: Attachment | null) => {
      if (!att) return;
      setAttachments((prev) => [...prev, att]);
  };
  \<close>
\<close>

definition handleSetAttachment :: "Attachment option \<Rightarrow> World \<Rightarrow> World" where
  "handleSetAttachment att w =
     (case att of
        None \<Rightarrow> w
      | Some a \<Rightarrow> w\<lparr>attachments := attachments w @ [a]\<rparr>)"

text \<open>\<^verbatim>\<open>const removeAttachment = () => { setAttachments([]); };\<close>\<close>

definition removeAttachment :: "World \<Rightarrow> World" where
  "removeAttachment w = w\<lparr>attachments := []\<rparr>"

text \<open>The remove button of the thumbnail at \<open>index\<close>.\<close>

definition removeAtIndex_click :: "nat \<Rightarrow> World \<Rightarrow> World" where
  "removeAtIndex_click index w = w\<lparr>attachments := removeAtIndex index (attachments w)\<rparr>"

text \<open>
  \<^verbatim>\<open>
  const handleFileChange = (event) => {
      const file = event.target.files?.[0];
      if (file) {
          onAttachment({ type: "file", data: file.name });
      }
      event.target.value = "";
  };
  \<close>
  The argument is the name of the first picked file, if there is one.
\<close>

definition handleFileChange :: "string option \<Rightarrow> World \<Rightarrow> World" where
  "handleFileChange file w =
     (case file of
        Some name \<Rightarrow> handleSetAttachment (Some \<lparr>kind = TypeFile, data = name\<rparr>) w
      | None \<Rightarrow> w)"

text \<open>
  The webpage modal: \<^verbatim>\<open>if (url.trim()) onAdd(url.trim());\<close> with
  \<^verbatim>\<open>
  onAdd={(url) => {
      handleSetAttachment({ type: "url", data: url });
      setIsWebpageModalOpen(false);
  }}
  \<close>
\<close>

definition handleAdd :: "string \<Rightarrow> World \<Rightarrow> World" where
  "handleAdd url w =
     (if trim url \<noteq> []
      then (handleSetAttachment (Some \<lparr>kind = TypeUrl, data = trim url\<rparr>) w)
             \<lparr>isWebpageModalOpen := False\<rparr>
      else w)"

section \<open>The capture trigger\<close>

text \<open>
  The settlement of a JavaScript promise at the moment the call that made it returns.
\<close>

datatype 'a promise = Pending | Fulfilled 'a | Rejected 'a

text \<open>
  Modelled from the spec: the result type and the failure type of the capture operation,
  which the source does not declare (\<^verbatim>\<open>handleCaptureClick\<close> is a
  \<^verbatim>\<open>Promise<void>\<close>). The failures are the taxonomy of the specification:
  \<^verbatim>\<open>CaptureUnsupported\<close>, \<^verbatim>\<open>CaptureTimeout\<close>, \<^verbatim>\<open>CaptureInternal\<close>.
  An outcome is what the specification lets \<^verbatim>\<open>capture()\<close> resolve to,
  \<^verbatim>\<open>{ image: dataURL }\<close> or a typed failure; \<open>Undefined\<close> is added for the value
  of an \<^verbatim>\<open>async\<close> function whose body returns nothing.
\<close>

datatype CaptureFailure = CaptureUnsupported | CaptureTimeout | CaptureInternal

datatype CaptureOutcome = Undefined | ImageResult string | Failure CaptureFailure

text \<open>
  \<^verbatim>\<open>
  const handleCaptureClick = async () => {
      // CHALLENGE: ... Your task is to implement this function. ...
      console.log("Capture clicked - functionality to be implemented by candidate.");
  };
  \<close>
  The body has no \<^verbatim>\<open>await\<close> and throws nothing: the promise is fulfilled with
  \<^verbatim>\<open>undefined\<close> when the call returns.
\<close>

definition handleCaptureClick :: "World \<Rightarrow> World \<times> CaptureOutcome promise" where
  "handleCaptureClick w =
     (w\<lparr>console := console w @
          [(Log, ''Capture clicked - functionality to be implemented by candidate.'')]\<rparr>,
      Fulfilled Undefined)"

text \<open>
  \<^verbatim>\<open><IconButton onClick={handleCaptureClick} disabled={isCapturing}>\<close>: a click on a
  disabled button dispatches no handler (\<open>None\<close>).
\<close>

definition capture_button_click :: "World \<Rightarrow> World \<times> CaptureOutcome promise option" where
  "capture_button_click w =
     (if isCapturing w then (w, None)
      else (case handleCaptureClick w of (w', p) \<Rightarrow> (w', Some p)))"

text \<open>
  Modelled from the spec: the outcomes the specification allows a caller of the capture
  operation to receive, which the source does not name: an image, or one of the typed
  failures (as the fulfilment value or as the rejection reason).
\<close>

fun typed_outcome :: "CaptureOutcome promise \<Rightarrow> bool" where
  "typed_outcome (Fulfilled (ImageResult d)) = True"
| "typed_outcome (Fulfilled (Failure f)) = True"
| "typed_outcome (Rejected (Failure f)) = True"
| "typed_outcome _ = False"

section \<open>The mock backend (backend.ts)\<close>

text \<open>
  \<^verbatim>\<open>createChat: async (prompt) => { return { data: { chatId: 'mock-chat-id' }, error: null }; }\<close>
\<close>

record CreateChatResult =
  res_chatId :: "string option"
  res_error :: "string option"

definition createChat :: "string \<Rightarrow> CreateChatResult" where
  "createChat p = \<lparr>res_chatId = Some ''mock-chat-id'', res_error = None\<rparr>"

text \<open>The canned reply of \<^verbatim>\<open>streamMessage\<close>.\<close>

definition mock_text :: string where
  "mock_text = ''This is a mock response from TradeBerg. In the real app, this would be a streaming AI response analyzing the market data.''"

text \<open>
  What one \<^verbatim>\<open>reader.read()\<close> of the response body settles to: a chunk of text
  (\<^verbatim>\<open>{ done: false, value }\<close>; the encoder and the decoder are inverse on the
  canned text), the end of the stream (\<^verbatim>\<open>{ done: true }\<close>), or a thrown error,
  given by its \<^verbatim>\<open>name\<close>.
\<close>

datatype ReadResult = Chunk string | Done | Throws string

text \<open>
  One run of the interval callback of the stream, every 50 ms:
  \<^verbatim>\<open>
  if (signal.aborted) { clearInterval(interval); controller.close(); return; }
  if (i >= text.length) { clearInterval(interval); controller.close(); return; }
  const chunk = text.slice(i, i + 5);
  controller.enqueue(encoder.encode(chunk));
  i += 5;
  \<close>
  From \<^verbatim>\<open>signal.aborted\<close> and \<open>i\<close>: what the reader gets, and the new \<open>i\<close>.
\<close>

definition interval_callback :: "string \<Rightarrow> bool \<Rightarrow> nat \<Rightarrow> ReadResult \<times> nat" where
  "interval_callback reply sig_aborted i =
     (if sig_aborted then (Done, i)
      else if i \<ge> length reply then (Done, i)
      else (Chunk (slice reply i (i + 5)), i + 5))"

text \<open>
  The whole stream: the callback runs at tick \<open>k\<close>, \<open>k + 1\<close>, ... until it closes the
  stream (closing clears the interval). \<open>fired k\<close> is \<^verbatim>\<open>signal.aborted\<close> as the
  callback of tick \<open>k\<close> reads it.
\<close>

function stream_from :: "string \<Rightarrow> (nat \<Rightarrow> bool) \<Rightarrow> nat \<Rightarrow> nat \<Rightarrow> ReadResult list" where
  "stream_from reply fired k i =
     (case interval_callback reply (fired k) i of
        (Chunk c, i') \<Rightarrow> Chunk c # stream_from reply fired (Suc k) i'
      | (r, _) \<Rightarrow> [r])"
  by pat_completeness auto
termination
  by (relation "measure (\<lambda>(reply, fired, k, i). length reply - i)")
     (auto simp: interval_callback_def split: if_splits)

text \<open>
  \<^verbatim>\<open>streamMessage(chatId, prompt, attachments, signal, mode)\<close>: the mock reads none
  of its arguments but the signal; \<open>i\<close> starts at 0.
\<close>

definition streamMessage :: "(nat \<Rightarrow> bool) \<Rightarrow> ReadResult list" where
  "streamMessage fired = stream_from mock_text fired 0 0"

text \<open>The text chunks of a stream, in order.\<close>

fun chunks_of :: "ReadResult list \<Rightarrow> string list" where
  "chunks_of [] = []"
| "chunks_of (Chunk c # rs) = c # chunks_of rs"
| "chunks_of (_ # rs) = chunks_of rs"

section \<open>Submitting a message\<close>

text \<open>
  The stream a suspended \<^verbatim>\<open>handleSubmit\<close> reads from: the address of the
  controller whose signal it was given, and its \<open>i\<close>.
\<close>

record MockStream =
  stream_signal :: nat
  stream_i :: nat

text \<open>\<^verbatim>\<open>signal.aborted\<close> of the controller at address \<open>a\<close>.\<close>

definition aborted :: "bool list \<Rightarrow> nat \<Rightarrow> bool" where
  "aborted cs a = (a < length cs \<and> cs ! a)"

text \<open>\<^verbatim>\<open>finally { setIsLoading(false); setAbortController(null); }\<close>\<close>

definition handleSubmit_finally :: "World \<Rightarrow> World" where
  "handleSubmit_finally w = w\<lparr>isLoading := False, abortController := None\<rparr>"

text \<open>
  \<^verbatim>\<open>res.error || !res.data?.chatId\<close>: \<^verbatim>\<open>null\<close> and the empty string are
  falsy.
\<close>

definition truthy :: "string option \<Rightarrow> bool" where
  "truthy v = (case v of None \<Rightarrow> False | Some s \<Rightarrow> s \<noteq> [])"

text \<open>
  \<^verbatim>\<open>
  setMessages((prev) => [...prev, { role: "assistant", content: full ?? "" }]);
  setIsAssistantTyping(true);
  setForceCompleteTyping(false);
  \<close>
\<close>

definition push_assistant :: "string \<Rightarrow> World \<Rightarrow> World" where
  "push_assistant full w =
     w\<lparr>messages := messages w @ [\<lparr>role = Assistant, content = full, msg_attachments = None\<rparr>],
       isAssistantTyping := True, forceCompleteTyping := False\<rparr>"

text \<open>
  \<^verbatim>\<open>handleSubmit(prompt)\<close> from the call to its first
  \<^verbatim>\<open>await reader.read()\<close>; the mock's promises on the way (\<^verbatim>\<open>createChat\<close>,
  \<^verbatim>\<open>streamMessage\<close>) are settled when made, so no event runs in between.
  \<^verbatim>\<open>
  if (isLoading || (!prompt.trim() && attachments.length === 0)) return;
  const currentAttachments = attachments;
  setMessages((prev) => [...prev, { role: "user", content: prompt, attachments: currentAttachments }]);
  setAttachments([]);
  setIsLoading(true);
  let activeChatId = chatId;
  let full = "";
  try {
      if (!activeChatId) {
          const res = await chatApi.createChat(prompt);
          if (res.error || !res.data?.chatId) { setIsLoading(false); return; }
          activeChatId = String(res.data.chatId);
          setChatId(activeChatId);
          startPollingChat(activeChatId);
      }
      if (abortController) { abortController.abort(); }
      const controller = new AbortController();
      setAbortController(controller);
      const response = await chatApi.streamMessage(activeChatId, prompt, currentAttachments, controller.signal, mode);
      const reader = response.body?.getReader();
      ...
  \<close>
  The result is the state, and the stream the call now reads from with \<open>full = ""\<close>;
  \<open>None\<close> when the call has returned. The response of the mock has a body, so the
  branch without a reader (\<^verbatim>\<open>full = await response.text()\<close>) is not taken.
\<close>

definition handleSubmit :: "string \<Rightarrow> World \<Rightarrow> World \<times> MockStream option" where
  "handleSubmit p w =
     (if isLoading w \<or> (trim p = [] \<and> length (attachments w) = 0) then (w, None)
      else
        let currentAttachments = attachments w;
            w1 = w\<lparr>messages := messages w @
                      [\<lparr>role = User, content = p, msg_attachments = Some currentAttachments\<rparr>],
                    attachments := [],
                    isLoading := True\<rparr>;
            res = createChat p
        in if \<not> truthy (chatId w) \<and> (truthy (res_error res) \<or> \<not> truthy (res_chatId res))
           then (handleSubmit_finally (w1\<lparr>isLoading := False\<rparr>), None)
           else
             let w2 = (if \<not> truthy (chatId w) then w1\<lparr>chatId := res_chatId res\<rparr> else w1);
                 cs = (case abortController w of
                         Some a \<Rightarrow> (controllers w)[a := True]
                       | None \<Rightarrow> controllers w);
                 controller = length cs
             in (w2\<lparr>controllers := cs @ [False], abortController := Some controller\<rparr>,
                 Some \<lparr>stream_signal = controller, stream_i = 0\<rparr>))"

text \<open>
  The rest of \<^verbatim>\<open>handleSubmit\<close>, from one settled \<^verbatim>\<open>reader.read()\<close> on,
  with the text \<open>full\<close> gathered so far:
  \<^verbatim>\<open>
      while (true) {
          const { done, value } = await reader.read();
          if (done) break;
          full += decoder.decode(value, { stream: true });
      }
      setMessages((prev) => [...prev, { role: "assistant", content: full ?? "" }]);
      setIsAssistantTyping(true);
      setForceCompleteTyping(false);
  } catch (err) {
      if ((err as any)?.name === "AbortError") {
          console.warn("chat stream aborted by user");
          if (full) {
              setMessages((prev) => [...prev, { role: "assistant", content: full ?? "" }]);
              setIsAssistantTyping(true);
              setForceCompleteTyping(false);
          }
      } else {
          console.error("chat error", err);
      }
  } finally {
      setIsLoading(false);
      setAbortController(null);
  }
  \<close>
  The result is the state, and the new \<open>full\<close> when the loop goes on to the next read;
  \<open>None\<close> when the call has returned.
\<close>

definition handleSubmit_read :: "ReadResult \<Rightarrow> string \<Rightarrow> World \<Rightarrow> World \<times> string option" where
  "handleSubmit_read r full w =
     (case r of
        Chunk v \<Rightarrow> (w, Some (full @ v))
      | Done \<Rightarrow> (handleSubmit_finally (push_assistant full w), None)
      | Throws name \<Rightarrow>
          (handleSubmit_finally
             (if name = ''AbortError''
              then (let w1 = w\<lparr>console := console w @ [(Warn, ''chat stream aborted by user'')]\<rparr>
                    in if full \<noteq> [] then push_assistant full w1 else w1)
              else w\<lparr>console := console w @ [(Error, ''chat error'')]\<rparr>),
           None))"

text \<open>
  One tick of the stream of a suspended \<^verbatim>\<open>handleSubmit\<close>: the interval callback
  of the mock, then the continuation of the read it settles.
\<close>

definition stream_tick :: "MockStream \<Rightarrow> string \<Rightarrow> World \<Rightarrow> World \<times> (MockStream \<times> string) option" where
  "stream_tick s full w =
     (case interval_callback mock_text (aborted (controllers w) (stream_signal s)) (stream_i s) of
        (r, i') \<Rightarrow>
          (case handleSubmit_read r full w of
             (w', None) \<Rightarrow> (w', None)
           | (w', Some full') \<Rightarrow> (w', Some (s\<lparr>stream_i := i'\<rparr>, full'))))"

text \<open>
  \<^verbatim>\<open>
  const handleStopStreaming = () => {
      if (abortController) {
          abortController.abort();
          setAbortController(null);
          setIsLoading(false);
      }
      if (isAssistantTyping) {
          setForceCompleteTyping(true);
          setIsAssistantTyping(false);
      }
  };
  \<close>
\<close>

definition handleStopStreaming :: "World \<Rightarrow> World" where
  "handleStopStreaming w =
     (let w1 = (case abortController w of
                  Some a \<Rightarrow> w\<lparr>controllers := (controllers w)[a := True],
                              abortController := None, isLoading := False\<rparr>
                | None \<Rightarrow> w)
      in if isAssistantTyping w
         then w1\<lparr>forceCompleteTyping := True, isAssistantTyping := False\<rparr>
         else w1)"

text \<open>
  The form of the prompt tray, which calls \<^verbatim>\<open>handleSubmit\<close> with its draft:
  \<^verbatim>\<open>
  const handleFormSubmit = (e) => {
      e.preventDefault();
      onSubmit(prompt);
      setPrompt("");
      ...
  };
  \<close>
\<close>

definition handleFormSubmit :: "World \<Rightarrow> World \<times> MockStream option" where
  "handleFormSubmit w =
     (case handleSubmit (prompt w) w of (w', s) \<Rightarrow> (w'\<lparr>prompt := []\<rparr>, s))"

section \<open>Sequences of events\<close>

text \<open>
  A sequence of calls of the sink, \<^verbatim>\<open>onAttachment(att)\<close> one after the other, and the
  attachments among the arguments (the others are \<^verbatim>\<open>null\<close>).
\<close>

definition addAttachments :: "Attachment option list \<Rightarrow> World \<Rightarrow> World" where
  "addAttachments atts w = foldl (\<lambda>v att. handleSetAttachment att v) w atts"

fun present :: "'a option list \<Rightarrow> 'a list" where
  "present [] = []"
| "present (None # xs) = present xs"
| "present (Some x # xs) = x # present xs"

text \<open>
  \<open>n\<close> clicks on the capture button, one after the other, and the promises of the
  handler calls they dispatched, oldest first.
\<close>

fun capture_clicks :: "nat \<Rightarrow> World \<Rightarrow> World \<times> CaptureOutcome promise list" where
  "capture_clicks 0 w = (w, [])"
| "capture_clicks (Suc n) w =
     (case capture_clicks n w of
        (w1, ps) \<Rightarrow>
          (case capture_button_click w1 of
             (w2, None) \<Rightarrow> (w2, ps)
           | (w2, Some p) \<Rightarrow> (w2, ps @ [p])))"

text \<open>The captures in flight among the promises made so far: those not settled.\<close>

definition in_flight :: "'a promise list \<Rightarrow> nat" where
  "in_flight ps = length (filter (\<lambda>p. p = Pending) ps)"

text \<open>
  The events that act on the pending attachments: a file picked, a URL entered in the
  webpage modal, a click on the capture button, a click on the remove button of a
  thumbnail, \<^verbatim>\<open>removeAttachment\<close>, and a submit.
\<close>

datatype AttachmentOp =
    FilePick "string option"
  | WebpageAdd string
  | CaptureClick
  | RemoveAtIndex nat
  | RemoveAttachment
  | Submit string

fun apply_op :: "AttachmentOp \<Rightarrow> World \<Rightarrow> World" where
  "apply_op (FilePick file) w = handleFileChange file w"
| "apply_op (WebpageAdd url) w = handleAdd url w"
| "apply_op CaptureClick w = fst (capture_button_click w)"
| "apply_op (RemoveAtIndex index) w = removeAtIndex_click index w"
| "apply_op RemoveAttachment w = removeAttachment w"
| "apply_op (Submit p) w = fst (handleSubmit p w)"

text \<open>The attachments of the messages of the transcript, in order.\<close>

definition transcript_attachments :: "World \<Rightarrow> Attachment list" where
  "transcript_attachments w =
     concat (map (\<lambda>m. case msg_attachments m of None \<Rightarrow> [] | Some atts \<Rightarrow> atts) (messages w))"

section \<open>Properties\<close>

lemma filter_indexed_below:
  "index < n \<Longrightarrow> filter_indexed (\<lambda>_ i. i \<noteq> index) n xs = xs"
  by (induction xs arbitrary: n) auto

lemma filter_indexed_delete:
  "n \<le> index \<Longrightarrow> index - n < length xs \<Longrightarrow>
   filter_indexed (\<lambda>_ i. i \<noteq> index) n xs = take (index - n) xs @ drop (Suc (index - n)) xs"
proof (induction xs arbitrary: n)
  case Nil
  then show ?case by simp
next
  case (Cons x xs)
  show ?case
  proof (cases "n = index")
    case True
    then show ?thesis by (simp add: filter_indexed_below)
  next
    case False
    with Cons.prems have lt: "n < index" by simp
    then have "Suc n \<le> index" and "index - Suc n < length xs"
      using Cons.prems by auto
    then have "filter_indexed (\<lambda>_ i. i \<noteq> index) (Suc n) xs
                 = take (index - Suc n) xs @ drop (Suc (index - Suc n)) xs"
      by (rule Cons.IH)
    moreover from lt have "index - n = Suc (index - Suc n)" by simp
    ultimately show ?thesis using False by simp
  qed
qed

text \<open>
  C10. Removing the pending attachment at a valid index \<open>i\<close> gives the list with
  exactly that element deleted: the elements before it and the elements after it, unchanged
  and in their order, one element fewer.
\<close>

theorem removeAtIndex_deletes_exactly_one:
  assumes "i < length prev"
  shows "removeAtIndex i prev = take i prev @ drop (Suc i) prev
       \<and> length (removeAtIndex i prev) = length prev - 1
       \<and> (\<forall>j < length prev - 1.
            removeAtIndex i prev ! j = (if j < i then prev ! j else prev ! Suc j))"
proof -
  have eq: "removeAtIndex i prev = take i prev @ drop (Suc i) prev"
    using assms filter_indexed_delete [of 0 i prev] by (simp add: removeAtIndex_def)
  moreover have "length (removeAtIndex i prev) = length prev - 1"
    using assms by (simp add: eq)
  moreover have "\<forall>j < length prev - 1.
      removeAtIndex i prev ! j = (if j < i then prev ! j else prev ! Suc j)"
    using assms by (auto simp: eq nth_append min_def)
  ultimately show ?thesis by blast
qed

theorem removeAtIndex_deletes_exactly_one_witness:
  "removeAtIndex 1 [\<lparr>kind = TypeImage, data = ''data:image/png;base64,AAAA''\<rparr>,
                    \<lparr>kind = TypeUrl, data = ''https://example.com''\<rparr>,
                    \<lparr>kind = TypeFile, data = ''notes.txt''\<rparr>]
     = [\<lparr>kind = TypeImage, data = ''data:image/png;base64,AAAA''\<rparr>,
        \<lparr>kind = TypeFile, data = ''notes.txt''\<rparr>]"
  using removeAtIndex_deletes_exactly_one
          [of 1 "[\<lparr>kind = TypeImage, data = ''data:image/png;base64,AAAA''\<rparr>,
                  \<lparr>kind = TypeUrl, data = ''https://example.com''\<rparr>,
                  \<lparr>kind = TypeFile, data = ''notes.txt''\<rparr>]"]
  by simp

subsection \<open>The guard of a submit\<close>

lemma trim_empty_iff: "trim s = [] \<longleftrightarrow> (\<forall>c \<in> set s. isWhiteSpace c)"
proof
  assume "trim s = []"
  then have "dropWhile isWhiteSpace (rev (dropWhile isWhiteSpace s)) = []"
    by (simp add: trim_def)
  then have "\<forall>c \<in> set (dropWhile isWhiteSpace s). isWhiteSpace c"
    by (simp add: dropWhile_eq_Nil_conv)
  moreover have "dropWhile isWhiteSpace s \<noteq> [] \<Longrightarrow> \<not> isWhiteSpace (hd (dropWhile isWhiteSpace s))"
    by (rule hd_dropWhile)
  ultimately have "dropWhile isWhiteSpace s = []"
    by (metis hd_in_set)
  then show "\<forall>c \<in> set s. isWhiteSpace c"
    by (simp add: dropWhile_eq_Nil_conv)
next
  assume "\<forall>c \<in> set s. isWhiteSpace c"
  then have "dropWhile isWhiteSpace s = []"
    by (simp add: dropWhile_eq_Nil_conv)
  then show "trim s = []" by (simp only: trim_def rev.simps dropWhile.simps)
qed

text \<open>
  C9. A submit while a response is loading, or of a prompt of white space only while no
  attachment is pending, changes nothing: \<^verbatim>\<open>handleSubmit\<close> returns at once, with
  the whole state (transcript, pending attachments, loading flag and all the rest) as it
  was.
\<close>

theorem handleSubmit_noop:
  "isLoading w \<or> ((\<forall>c \<in> set p. isWhiteSpace c) \<and> attachments w = []) \<Longrightarrow>
   handleSubmit p w = (w, None)"
  by (auto simp: handleSubmit_def trim_empty_iff)

theorem handleSubmit_noop_witness:
  "handleSubmit ''   '' (initial None) = (initial None, None)
   \<and> handleSubmit ''hello'' ((initial None)\<lparr>isLoading := True\<rparr>)
       = ((initial None)\<lparr>isLoading := True\<rparr>, None)"
  using handleSubmit_noop [of "initial None" "''   ''"]
        handleSubmit_noop [of "(initial None)\<lparr>isLoading := True\<rparr>" "''hello''"]
  by (simp add: isWhiteSpace_def initial_def)

text \<open>
  The form of the prompt tray clears its own draft after the call, also when the guard
  refused the submit; nothing else changes then.
\<close>

lemma handleFormSubmit_refused:
  "isLoading w \<or> ((\<forall>c \<in> set (prompt w). isWhiteSpace c) \<and> attachments w = []) \<Longrightarrow>
   handleFormSubmit w = (w\<lparr>prompt := []\<rparr>, None)"
  by (auto simp: handleFormSubmit_def handleSubmit_def trim_empty_iff)

subsection \<open>The reply stream of the mock backend\<close>

declare stream_from.simps [simp del]

lemma stream_from_stop:
  "fired k \<or> length reply \<le> i \<Longrightarrow> stream_from reply fired k i = [Done]"
  by (subst stream_from.simps) (auto simp: interval_callback_def)

lemma stream_from_go:
  "\<not> fired k \<Longrightarrow> i < length reply \<Longrightarrow>
   stream_from reply fired k i
     = Chunk (slice reply i (i + 5)) # stream_from reply fired (Suc k) (i + 5)"
  by (subst stream_from.simps) (simp add: interval_callback_def)

text \<open>Induction along the ticks of one stream.\<close>

lemma stream_from_induct [case_names stop go]:
  assumes "\<And>k i. fired k \<or> length reply \<le> i \<Longrightarrow> P k i"
    and "\<And>k i. \<not> fired k \<Longrightarrow> i < length reply \<Longrightarrow> P (Suc k) (i + 5) \<Longrightarrow> P k i"
  shows "P k i"
proof (induction "length reply - i" arbitrary: k i rule: less_induct)
  case less
  show ?case
  proof (cases "fired k \<or> length reply \<le> i")
    case True
    then show ?thesis by (rule assms(1))
  next
    case False
    then have go: "\<not> fired k" "i < length reply" by auto
    then have "length reply - (i + 5) < length reply - i" by simp
    then have "P (Suc k) (i + 5)" by (rule less)
    with go show ?thesis by (rule assms(2))
  qed
qed

lemma stream_from_closes:
  "stream_from reply fired k i = map Chunk (chunks_of (stream_from reply fired k i)) @ [Done]"
  by (induction k i rule: stream_from_induct [of fired reply])
     (simp_all add: stream_from_stop stream_from_go)

lemma chunk_bounds:
  "\<forall>c \<in> set (chunks_of (stream_from reply fired k i)). 0 < length c \<and> length c \<le> 5"
  by (induction k i rule: stream_from_induct [of fired reply])
     (auto simp: stream_from_stop stream_from_go slice_def)

lemma chunks_concat_prefix:
  "concat (chunks_of (stream_from reply fired k i))
     = take (5 * length (chunks_of (stream_from reply fired k i))) (drop i reply)"
proof (induction k i rule: stream_from_induct [of fired reply])
  case (stop k i)
  then show ?case by (simp add: stream_from_stop)
next
  case (go k i)
  have "take (5 + 5 * n) (drop i reply) = take 5 (drop i reply) @ take (5 * n) (drop (i + 5) reply)" for n
    by (simp add: take_add add.commute)
  with go show ?case by (simp add: stream_from_go slice_def)
qed

lemma chunks_whole:
  "\<forall>k. \<not> fired k \<Longrightarrow> concat (chunks_of (stream_from reply fired k i)) = drop i reply"
proof (induction k i rule: stream_from_induct [of fired reply])
  case (stop k i)
  then show ?case by (simp add: stream_from_stop)
next
  case (go k i)
  have "take 5 (drop i reply) @ drop (i + 5) reply = drop i reply"
    using append_take_drop_id [of 5 "drop i reply"] by (simp add: add.commute)
  with go show ?case by (simp add: stream_from_go slice_def)
qed

lemma chunks_after_abort:
  "fired n \<Longrightarrow> k \<le> n \<Longrightarrow> length (chunks_of (stream_from reply fired k i)) \<le> n - k"
proof (induction k i rule: stream_from_induct [of fired reply])
  case (stop k i)
  then show ?case by (simp add: stream_from_stop)
next
  case (go k i)
  then have "k \<noteq> n" by auto
  with go show ?case by (simp add: stream_from_go)
qed

text \<open>
  C6. For every call of \<^verbatim>\<open>streamMessage\<close>, whatever the abort signal does, the
  stream is a finite sequence of text chunks followed by its close; each chunk has between
  one and five characters, and the chunks are, joined, a prefix of the canned text. When the
  signal never fires they are the whole canned text. When the signal has fired at tick
  \<open>n\<close>, no chunk is emitted at tick \<open>n\<close> or later: the stream has at most \<open>n\<close>
  chunks (those of the ticks before), and closes.
\<close>

theorem streamMessage_finite_cancellable:
  "streamMessage fired = map Chunk (chunks_of (streamMessage fired)) @ [Done]
   \<and> (\<forall>c \<in> set (chunks_of (streamMessage fired)). 0 < length c \<and> length c \<le> 5)
   \<and> concat (chunks_of (streamMessage fired))
       = take (5 * length (chunks_of (streamMessage fired))) mock_text
   \<and> ((\<forall>k. \<not> fired k) \<longrightarrow> concat (chunks_of (streamMessage fired)) = mock_text)
   \<and> (\<forall>n. fired n \<longrightarrow> length (chunks_of (streamMessage fired)) \<le> n)"
proof -
  have "streamMessage fired = map Chunk (chunks_of (streamMessage fired)) @ [Done]"
    unfolding streamMessage_def by (rule stream_from_closes)
  moreover have "\<forall>c \<in> set (chunks_of (streamMessage fired)). 0 < length c \<and> length c \<le> 5"
    unfolding streamMessage_def by (rule chunk_bounds)
  moreover have "concat (chunks_of (streamMessage fired))
       = take (5 * length (chunks_of (streamMessage fired))) mock_text"
    unfolding streamMessage_def using chunks_concat_prefix [of mock_text fired 0 0] by simp
  moreover have "(\<forall>k. \<not> fired k) \<longrightarrow> concat (chunks_of (streamMessage fired)) = mock_text"
    unfolding streamMessage_def using chunks_whole [of fired mock_text 0 0] by simp
  moreover have "\<forall>n. fired n \<longrightarrow> length (chunks_of (streamMessage fired)) \<le> n"
    unfolding streamMessage_def using chunks_after_abort [of fired _ 0 mock_text 0] by simp
  ultimately show ?thesis by blast
qed

theorem streamMessage_finite_cancellable_witness:
  "streamMessage (\<lambda>k. 2 \<le> k) = [Chunk ''This '', Chunk ''is a '', Done]
   \<and> length (chunks_of (streamMessage (\<lambda>k. 2 \<le> k))) \<le> 2
   \<and> concat (chunks_of (streamMessage (\<lambda>k. False))) = mock_text"
proof -
  have a: "streamMessage (\<lambda>k. 2 \<le> k) = [Chunk ''This '', Chunk ''is a '', Done]"
    by code_simp
  have b: "(2::nat) \<le> 2" by simp
  from streamMessage_finite_cancellable [of "\<lambda>k. 2 \<le> k"] b
  have "length (chunks_of (streamMessage (\<lambda>k. 2 \<le> k))) \<le> 2" by blast
  moreover from streamMessage_finite_cancellable [of "\<lambda>k. False"]
  have "concat (chunks_of (streamMessage (\<lambda>k. False))) = mock_text" by blast
  ultimately show ?thesis using a by blast
qed

subsection \<open>The attachment sink and the next message\<close>

lemma attachments_addAttachments:
  "attachments (addAttachments atts w) = attachments w @ present atts"
proof (induction atts arbitrary: w)
  case Nil
  then show ?case by (simp add: addAttachments_def)
next
  case (Cons a atts)
  have "addAttachments (a # atts) w = addAttachments atts (handleSetAttachment a w)"
    by (simp add: addAttachments_def)
  then show ?case using Cons [of "handleSetAttachment a w"]
    by (cases a) (simp_all add: handleSetAttachment_def)
qed

lemma addAttachments_frame:
  "messages (addAttachments atts w) = messages w
   \<and> isLoading (addAttachments atts w) = isLoading w"
proof (induction atts arbitrary: w)
  case Nil
  then show ?case by (simp add: addAttachments_def)
next
  case (Cons a atts)
  have "addAttachments (a # atts) w = addAttachments atts (handleSetAttachment a w)"
    by (simp add: addAttachments_def)
  then show ?case using Cons [of "handleSetAttachment a w"]
    by (cases a) (simp_all add: handleSetAttachment_def)
qed

lemma handleSubmit_accepted:
  assumes "\<not> isLoading w" and "trim p \<noteq> [] \<or> attachments w \<noteq> []"
  shows "messages (fst (handleSubmit p w))
           = messages w @ [\<lparr>role = User, content = p, msg_attachments = Some (attachments w)\<rparr>]"
    and "attachments (fst (handleSubmit p w)) = []"
  using assms by (auto simp: handleSubmit_def Let_def handleSubmit_finally_def)

text \<open>
  C5, as the source has it. The sink appends each attachment it is given to the pending list
  (a \<^verbatim>\<open>null\<close> argument adds nothing). For every sequence of calls of the sink followed
  by a submit that the guard of \<^verbatim>\<open>handleSubmit\<close> accepts (no response is loading, and
  the prompt is not blank or an attachment is pending), the user message appended to the
  transcript carries exactly the pending attachments, those pending before and then the added
  ones in insertion order, and the pending list is empty afterwards.
\<close>

theorem submit_carries_pending:
  assumes "\<not> isLoading w"
    and "(\<exists>c \<in> set p. \<not> isWhiteSpace c) \<or> attachments w @ present atts \<noteq> []"
  shows "messages (fst (handleSubmit p (addAttachments atts w)))
           = messages w @ [\<lparr>role = User, content = p,
                            msg_attachments = Some (attachments w @ present atts)\<rparr>]
       \<and> attachments (fst (handleSubmit p (addAttachments atts w))) = []"
proof -
  let ?v = "addAttachments atts w"
  have "\<not> isLoading ?v" using assms(1) by (simp add: addAttachments_frame)
  moreover have "trim p \<noteq> [] \<or> attachments ?v \<noteq> []"
    using assms(2) by (auto simp: trim_empty_iff attachments_addAttachments)
  ultimately show ?thesis
    using handleSubmit_accepted [of ?v p]
    by (simp add: addAttachments_frame attachments_addAttachments)
qed

theorem submit_carries_pending_witness:
  "messages (fst (handleSubmit ''look''
      (addAttachments [Some \<lparr>kind = TypeFile, data = ''a.txt''\<rparr>, None,
                       Some \<lparr>kind = TypeUrl, data = ''https://x.y''\<rparr>] (initial None))))
     = [\<lparr>role = User, content = ''look'',
         msg_attachments = Some [\<lparr>kind = TypeFile, data = ''a.txt''\<rparr>,
                                 \<lparr>kind = TypeUrl, data = ''https://x.y''\<rparr>]\<rparr>]
   \<and> attachments (fst (handleSubmit ''look''
      (addAttachments [Some \<lparr>kind = TypeFile, data = ''a.txt''\<rparr>, None,
                       Some \<lparr>kind = TypeUrl, data = ''https://x.y''\<rparr>] (initial None)))) = []"
  using submit_carries_pending [of "initial None" "''look''"
      "[Some \<lparr>kind = TypeFile, data = ''a.txt''\<rparr>, None,
        Some \<lparr>kind = TypeUrl, data = ''https://x.y''\<rparr>]"]
  by (simp add: initial_def isWhiteSpace_def)

text \<open>
  C5, as stated, fails for a submit while a response is loading: one file is added, the
  prompt \<open>look\<close> is submitted, and the file is still pending afterwards; the transcript
  has no message.
\<close>

theorem submit_while_loading_counterexample:
  "attachments (fst (handleSubmit ''look''
      (addAttachments [Some \<lparr>kind = TypeFile, data = ''a.txt''\<rparr>]
         ((initial None)\<lparr>isLoading := True\<rparr>))))
     = [\<lparr>kind = TypeFile, data = ''a.txt''\<rparr>]
   \<and> messages (fst (handleSubmit ''look''
      (addAttachments [Some \<lparr>kind = TypeFile, data = ''a.txt''\<rparr>]
         ((initial None)\<lparr>isLoading := True\<rparr>)))) = []"
  by (simp add: handleSubmit_def addAttachments_def handleSetAttachment_def initial_def)

subsection \<open>Cancelling a reply stream\<close>

lemma stop_aborts:
  "abortController w = Some a \<Longrightarrow> a < length (controllers w) \<Longrightarrow>
   aborted (controllers (handleStopStreaming w)) a"
  by (simp add: handleStopStreaming_def aborted_def Let_def)

lemma stop_frame:
  "messages (handleStopStreaming w) = messages w
   \<and> console (handleStopStreaming w) = console w"
  by (simp add: handleStopStreaming_def Let_def split: option.split)

text \<open>
  C7. A cancelled reply stream keeps the partial text, and the cancellation is no error.
  Let \<open>full\<close>, not empty, be the text a suspended \<^verbatim>\<open>handleSubmit\<close> has received.
  With the mock backend: when the user stops the stream of the current controller
  (\<^verbatim>\<open>handleStopStreaming\<close>), the next tick of the stream closes it, the submit ends, the
  transcript gains the assistant message \<open>full\<close>, nothing is written to the console and
  the loading flag is off. With a backend whose read throws \<^verbatim>\<open>AbortError\<close>: the submit
  ends, the transcript gains the assistant message \<open>full\<close>, the console gains one warning
  (no error) and the loading flag is off.
\<close>

theorem cancelled_stream_keeps_partial_reply:
  assumes "full \<noteq> []"
  shows "(abortController w = Some (stream_signal s) \<and> stream_signal s < length (controllers w) \<longrightarrow>
          snd (stream_tick s full (handleStopStreaming w)) = None
        \<and> messages (fst (stream_tick s full (handleStopStreaming w)))
            = messages w @ [\<lparr>role = Assistant, content = full, msg_attachments = None\<rparr>]
        \<and> console (fst (stream_tick s full (handleStopStreaming w))) = console w
        \<and> \<not> isLoading (fst (stream_tick s full (handleStopStreaming w))))
      \<and> snd (handleSubmit_read (Throws ''AbortError'') full w) = None
      \<and> messages (fst (handleSubmit_read (Throws ''AbortError'') full w))
            = messages w @ [\<lparr>role = Assistant, content = full, msg_attachments = None\<rparr>]
      \<and> console (fst (handleSubmit_read (Throws ''AbortError'') full w))
            = console w @ [(Warn, ''chat stream aborted by user'')]
      \<and> \<not> isLoading (fst (handleSubmit_read (Throws ''AbortError'') full w))"
proof -
  have "snd (stream_tick s full (handleStopStreaming w)) = None
        \<and> messages (fst (stream_tick s full (handleStopStreaming w)))
            = messages w @ [\<lparr>role = Assistant, content = full, msg_attachments = None\<rparr>]
        \<and> console (fst (stream_tick s full (handleStopStreaming w))) = console w
        \<and> \<not> isLoading (fst (stream_tick s full (handleStopStreaming w)))"
    if "abortController w = Some (stream_signal s)" and "stream_signal s < length (controllers w)"
  proof -
    have "aborted (controllers (handleStopStreaming w)) (stream_signal s)"
      using that by (rule stop_aborts)
    then have "stream_tick s full (handleStopStreaming w)
                 = (handleSubmit_finally (push_assistant full (handleStopStreaming w)), None)"
      by (simp add: stream_tick_def interval_callback_def handleSubmit_read_def)
    then show ?thesis
      by (simp add: handleSubmit_finally_def push_assistant_def stop_frame)
  qed
  moreover have "snd (handleSubmit_read (Throws ''AbortError'') full w) = None
      \<and> messages (fst (handleSubmit_read (Throws ''AbortError'') full w))
            = messages w @ [\<lparr>role = Assistant, content = full, msg_attachments = None\<rparr>]
      \<and> console (fst (handleSubmit_read (Throws ''AbortError'') full w))
            = console w @ [(Warn, ''chat stream aborted by user'')]
      \<and> \<not> isLoading (fst (handleSubmit_read (Throws ''AbortError'') full w))"
    using assms
    by (simp add: handleSubmit_read_def handleSubmit_finally_def push_assistant_def Let_def)
  ultimately show ?thesis by blast
qed

text \<open>
  The prompt \<open>hi\<close> is submitted in a fresh chat, two ticks deliver \<open>This is a \<close>, the
  user stops the stream: the next tick ends the submit with the partial reply in the
  transcript.
\<close>

theorem cancelled_stream_keeps_partial_reply_witness:
  "''This is a '' \<noteq> []
   \<and> abortController (fst (handleSubmit ''hi'' (initial None))) = Some 0
   \<and> messages (fst (stream_tick \<lparr>stream_signal = 0, stream_i = 10\<rparr> ''This is a ''
         (handleStopStreaming (fst (handleSubmit ''hi'' (initial None))))))
       = [\<lparr>role = User, content = ''hi'', msg_attachments = Some []\<rparr>,
          \<lparr>role = Assistant, content = ''This is a '', msg_attachments = None\<rparr>]"
  using cancelled_stream_keeps_partial_reply
          [of "''This is a ''" "fst (handleSubmit ''hi'' (initial None))"
              "\<lparr>stream_signal = 0, stream_i = 10\<rparr>"]
  by (simp add: handleSubmit_def initial_def isWhiteSpace_def trim_def createChat_def
        truthy_def handleSubmit_finally_def Let_def)

text \<open>How the stream of that example got there: the submit, then two ticks.\<close>

lemma two_ticks_after_submit:
  "snd (handleSubmit ''hi'' (initial None)) = Some \<lparr>stream_signal = 0, stream_i = 0\<rparr>
   \<and> stream_tick \<lparr>stream_signal = 0, stream_i = 0\<rparr> [] (fst (handleSubmit ''hi'' (initial None)))
       = (fst (handleSubmit ''hi'' (initial None)),
          Some (\<lparr>stream_signal = 0, stream_i = 5\<rparr>, ''This ''))
   \<and> stream_tick \<lparr>stream_signal = 0, stream_i = 5\<rparr> ''This ''
         (fst (handleSubmit ''hi'' (initial None)))
       = (fst (handleSubmit ''hi'' (initial None)),
          Some (\<lparr>stream_signal = 0, stream_i = 10\<rparr>, ''This is a ''))"
  by (simp add: handleSubmit_def initial_def isWhiteSpace_def trim_def createChat_def
        truthy_def Let_def stream_tick_def interval_callback_def aborted_def mock_text_def
        slice_def handleSubmit_read_def)

subsection \<open>The kinds of attachments\<close>

lemma set_filter_indexed: "set (filter_indexed p n xs) \<subseteq> set xs"
  by (induction xs arbitrary: n) auto

lemma transcript_submit:
  "set (transcript_attachments (fst (handleSubmit p w)))
     \<subseteq> set (transcript_attachments w) \<union> set (attachments w)"
  by (auto simp: handleSubmit_def Let_def transcript_attachments_def handleSubmit_finally_def)

lemma pending_submit:
  "set (attachments (fst (handleSubmit p w))) \<subseteq> set (attachments w)"
  by (auto simp: handleSubmit_def Let_def handleSubmit_finally_def)

text \<open>
  C8. Every attachment has one of the three kinds image, url and file, and no event changes
  the kind of an attachment. After any event on the attachment list (a file pick, a URL of
  the webpage modal, a capture click, the removal of one or of all pending attachments, a
  submit), every pending attachment either was pending before, unchanged, or is the one that
  entered with the event: of kind file for a picked file, of kind url for a URL of the modal
  (a capture click lets none enter). Every attachment of the transcript was in the transcript
  before or was pending, unchanged.
\<close>

theorem attachment_kinds_preserved:
  "(\<forall>a \<in> set (attachments (apply_op ev w)).
       (kind a = TypeImage \<or> kind a = TypeUrl \<or> kind a = TypeFile)
     \<and> (a \<in> set (attachments w)
        \<or> (\<exists>name. ev = FilePick (Some name) \<and> a = \<lparr>kind = TypeFile, data = name\<rparr>)
        \<or> (\<exists>url. ev = WebpageAdd url \<and> a = \<lparr>kind = TypeUrl, data = trim url\<rparr>)))
   \<and> (\<forall>a \<in> set (transcript_attachments (apply_op ev w)).
       (kind a = TypeImage \<or> kind a = TypeUrl \<or> kind a = TypeFile)
     \<and> (a \<in> set (transcript_attachments w) \<or> a \<in> set (attachments w)))"
proof -
  have kinds: "kind a = TypeImage \<or> kind a = TypeUrl \<or> kind a = TypeFile" for a :: Attachment
    by (cases "kind a") simp_all
  have pending: "a \<in> set (attachments w)
        \<or> (\<exists>name. ev = FilePick (Some name) \<and> a = \<lparr>kind = TypeFile, data = name\<rparr>)
        \<or> (\<exists>url. ev = WebpageAdd url \<and> a = \<lparr>kind = TypeUrl, data = trim url\<rparr>)"
    if "a \<in> set (attachments (apply_op ev w))" for a
  proof (cases ev)
    case (FilePick picked)
    with that show ?thesis
      by (cases picked) (auto simp: handleFileChange_def handleSetAttachment_def)
  next
    case (WebpageAdd url)
    with that show ?thesis
      by (auto simp: handleAdd_def handleSetAttachment_def split: if_splits)
  next
    case CaptureClick
    with that show ?thesis
      by (auto simp: capture_button_click_def handleCaptureClick_def split: if_splits)
  next
    case (RemoveAtIndex index)
    with that show ?thesis
      using set_filter_indexed [of "\<lambda>_ i. i \<noteq> index" 0 "attachments w"]
      by (auto simp: removeAtIndex_click_def removeAtIndex_def)
  next
    case RemoveAttachment
    with that show ?thesis by (simp add: removeAttachment_def)
  next
    case (Submit p)
    with that show ?thesis using pending_submit [of p w] by auto
  qed
  have transcript: "a \<in> set (transcript_attachments w) \<or> a \<in> set (attachments w)"
    if "a \<in> set (transcript_attachments (apply_op ev w))" for a
  proof (cases ev)
    case (FilePick picked)
    with that show ?thesis
      by (cases picked)
         (auto simp: handleFileChange_def handleSetAttachment_def transcript_attachments_def)
  next
    case (WebpageAdd url)
    with that show ?thesis
      by (auto simp: handleAdd_def handleSetAttachment_def transcript_attachments_def
               split: if_splits)
  next
    case CaptureClick
    with that show ?thesis
      by (auto simp: capture_button_click_def handleCaptureClick_def transcript_attachments_def
               split: if_splits)
  next
    case (RemoveAtIndex index)
    with that show ?thesis
      by (auto simp: removeAtIndex_click_def transcript_attachments_def)
  next
    case RemoveAttachment
    with that show ?thesis by (auto simp: removeAttachment_def transcript_attachments_def)
  next
    case (Submit p)
    with that show ?thesis using transcript_submit [of p w] by auto
  qed
  show ?thesis using kinds pending transcript by blast
qed

theorem attachment_kinds_preserved_witness:
  "map kind (attachments (apply_op (FilePick (Some ''notes.txt''))
       (apply_op (WebpageAdd '' https://example.com '') (initial None))))
     = [TypeUrl, TypeFile]
   \<and> transcript_attachments (apply_op (Submit ''see'')
       (apply_op (WebpageAdd '' https://example.com '') (initial None)))
     = [\<lparr>kind = TypeUrl, data = ''https://example.com''\<rparr>]"
  using attachment_kinds_preserved [of "FilePick (Some ''notes.txt'')"
          "apply_op (WebpageAdd '' https://example.com '') (initial None)"]
        attachment_kinds_preserved [of "Submit ''see''"
          "apply_op (WebpageAdd '' https://example.com '') (initial None)"]
  by (simp add: handleFileChange_def handleAdd_def handleSetAttachment_def initial_def
        trim_def isWhiteSpace_def handleSubmit_def Let_def createChat_def truthy_def
        transcript_attachments_def)

subsection \<open>The capture trigger\<close>

text \<open>
  C1, as stated, fails at the first click in a fresh chat: the promise of
  \<^verbatim>\<open>handleCaptureClick\<close> carries neither an image nor a typed failure.
\<close>

theorem capture_outcome_absent_counterexample:
  "\<not> typed_outcome (snd (handleCaptureClick (initial None)))"
  by (simp add: handleCaptureClick_def)

text \<open>
  C1, as the source has it. Every call of \<^verbatim>\<open>handleCaptureClick\<close> returns a promise
  fulfilled with \<^verbatim>\<open>undefined\<close>: it carries no image and no typed failure. The call
  hands nothing to the attachment sink, and writes one line to the console. A click on the
  capture button dispatches that call unless the button is disabled.
\<close>

theorem capture_fulfils_with_undefined:
  "snd (handleCaptureClick w) = Fulfilled Undefined
   \<and> \<not> typed_outcome (snd (handleCaptureClick w))
   \<and> snd (capture_button_click w) = (if isCapturing w then None else Some (Fulfilled Undefined))
   \<and> attachments (fst (handleCaptureClick w)) = attachments w
   \<and> console (fst (handleCaptureClick w))
       = console w @ [(Log, ''Capture clicked - functionality to be implemented by candidate.'')]"
  by (simp add: handleCaptureClick_def capture_button_click_def)

lemma capture_clicks_settled: "Pending \<notin> set (snd (capture_clicks n w))"
  by (induction n)
     (auto simp: capture_button_click_def handleCaptureClick_def
           split: prod.splits option.splits if_splits)

text \<open>
  C2. At most one capture is in flight on a trigger: after any number of clicks on the
  capture button, every promise the handler returned is settled (the handler does not
  suspend), so no click finds an earlier capture pending. A click while the trigger is in
  its capturing state (\<open>isCapturing\<close>, which disables the button) is a no-op: it dispatches
  no handler and changes nothing.
\<close>

theorem capture_at_most_one_in_flight:
  "Pending \<notin> set (snd (capture_clicks n w))
   \<and> in_flight (snd (capture_clicks n w)) \<le> 1
   \<and> (isCapturing w \<longrightarrow> capture_button_click w = (w, None))"
proof -
  have "filter (\<lambda>p. p = Pending) (snd (capture_clicks n w)) = []"
    using capture_clicks_settled [of n w] by (auto simp: filter_empty_conv)
  then show ?thesis
    using capture_clicks_settled [of n w] by (simp add: in_flight_def capture_button_click_def)
qed

theorem capture_at_most_one_in_flight_witness:
  "snd (capture_clicks 2 (initial None)) = [Fulfilled Undefined, Fulfilled Undefined]
   \<and> in_flight (snd (capture_clicks 2 (initial None))) \<le> 1
   \<and> capture_button_click ((initial None)\<lparr>isCapturing := True\<rparr>)
       = ((initial None)\<lparr>isCapturing := True\<rparr>, None)"
proof -
  have "snd (capture_clicks 2 (initial None)) = [Fulfilled Undefined, Fulfilled Undefined]"
    by code_simp
  moreover have "isCapturing ((initial None)\<lparr>isCapturing := True\<rparr>)" by simp
  ultimately show ?thesis
    using capture_at_most_one_in_flight [of 2 "initial None"]
          capture_at_most_one_in_flight [of 0 "(initial None)\<lparr>isCapturing := True\<rparr>"]
    by blast
qed

lemma capture_clicks_frame:
  "attachments (fst (capture_clicks n w)) = attachments w
   \<and> messages (fst (capture_clicks n w)) = messages w
   \<and> isCapturing (fst (capture_clicks n w)) = isCapturing w"
  by (induction n)
     (auto simp: capture_button_click_def handleCaptureClick_def
           split: prod.splits option.splits if_splits)

text \<open>
  C4. No capture invocation adds an attachment, whatever its outcome, so none that fails
  does: after a click on the capture button, and after any number of them, the pending list
  has the contents and the length it had before.
\<close>

theorem capture_never_attaches:
  "attachments (fst (capture_clicks n w)) = attachments w
   \<and> length (attachments (fst (capture_clicks n w))) = length (attachments w)
   \<and> attachments (fst (capture_button_click w)) = attachments w"
  using capture_clicks_frame [of n w]
  by (simp add: capture_button_click_def handleCaptureClick_def)

end
